theory Spec2Isabelle
  imports Main
begin

section \<open>Values decoded from a model reply\<close>

text \<open>
  The agent of \<^verbatim>\<open>src/ai/agent.py\<close> reads the reply of the language model with
  \<^verbatim>\<open>json.loads\<close> and stores whatever the decoder returns in the fields of a step
  (\<^verbatim>\<open>data.get("thought", "")\<close>, \<^verbatim>\<open>data.get("action")\<close>,
  \<^verbatim>\<open>data.get("action_input", {})\<close>), so a field holds an arbitrary decoded value,
  not only a string. The type \<open>json\<close> is that universe of Python values: \<open>JNull\<close>
  is \<^verbatim>\<open>None\<close>, \<open>JObject\<close> a \<^verbatim>\<open>dict\<close> as its list of items (keys distinct),
  \<open>JArray\<close> a \<^verbatim>\<open>list\<close>.
\<close>

datatype pyfloat = FloatVal int int | FloatInf bool | FloatNaN

datatype json =
    JNull
  | JBool bool
  | JInt int
  | JFloat pyfloat
  | JString string
  | JArray "json list"
  | JObject "(string \<times> json) list"

text \<open>Python's truth value of a decoded value, as \<^verbatim>\<open>if step.action\<close> and
  \<^verbatim>\<open>step.action_input or {}\<close> test it. A float \<open>FloatVal m e\<close> stands for
  \<open>m * 2 ^ e\<close>; infinities and NaN are true.\<close>

fun truthy :: "json \<Rightarrow> bool" where
  "truthy JNull = False"
| "truthy (JBool b) = b"
| "truthy (JInt i) = (i \<noteq> 0)"
| "truthy (JFloat (FloatVal m e)) = (m \<noteq> 0)"
| "truthy (JFloat (FloatInf s)) = True"
| "truthy (JFloat FloatNaN) = True"
| "truthy (JString s) = (s \<noteq> [])"
| "truthy (JArray xs) = (xs \<noteq> [])"
| "truthy (JObject kvs) = (kvs \<noteq> [])"

text \<open>\<^verbatim>\<open>d.get(key, default)\<close> on a dict.\<close>

definition dict_get :: "(string \<times> json) list \<Rightarrow> string \<Rightarrow> json \<Rightarrow> json" where
  "dict_get kvs k d = (case map_of kvs k of Some v \<Rightarrow> v | None \<Rightarrow> d)"

text \<open>\<^verbatim>\<open>x or {}\<close>.\<close>

definition or_empty_dict :: "json \<Rightarrow> json" where
  "or_empty_dict x = (if truthy x then x else JObject [])"

text \<open>
  \<^verbatim>\<open>json.loads\<close> belongs to Python's standard library, not to this repository, so the
  decoder is a parameter of the model. Its outcome is a decoded value, the exception
  \<^verbatim>\<open>json.JSONDecodeError\<close> (the only one \<^verbatim>\<open>_parse_response\<close> catches), or any
  other exception, which \<^verbatim>\<open>_parse_response\<close> lets through.
\<close>

datatype loads_result = Decoded json | JSONDecodeError | LoadsRaised string

type_synonym decoder = "string \<Rightarrow> loads_result"

section \<open>Strings: \<^verbatim>\<open>find\<close>, \<^verbatim>\<open>rfind\<close> and slices\<close>

text \<open>
  A text is the list of its bytes in UTF-8. The two braces are ASCII characters, which
  never occur inside the encoding of another character, so the first \<open>{\<close>, the last
  \<open>}\<close> and the slice between them are the same whether positions count bytes or, as
  in Python, code points.
\<close>

text \<open>\<^verbatim>\<open>s.find(c)\<close>: the index of the first occurrence of the character, or \<open>-1\<close>.\<close>

definition py_find :: "char \<Rightarrow> string \<Rightarrow> int" where
  "py_find c s = (if c \<in> set s then int (length (takeWhile (\<lambda>x. x \<noteq> c) s)) else - 1)"

text \<open>\<^verbatim>\<open>s.rfind(c)\<close>: the index of the last occurrence, or \<open>-1\<close>.\<close>

definition py_rfind :: "char \<Rightarrow> string \<Rightarrow> int" where
  "py_rfind c s =
     (if c \<in> set s then int (length s) - 1 - int (length (takeWhile (\<lambda>x. x \<noteq> c) (rev s)))
      else - 1)"

text \<open>\<^verbatim>\<open>s[i:j]\<close> for indices that are not negative (the parser slices only under
  \<^verbatim>\<open>start >= 0 and end > start\<close>); an end beyond the string is clipped, as in Python.\<close>

definition py_slice :: "string \<Rightarrow> int \<Rightarrow> int \<Rightarrow> string" where
  "py_slice s i j = drop (nat i) (take (nat j) s)"

section \<open>Steps and the response parser\<close>

text \<open>
  The observation of a step is a Python string built in one of two ways, kept apart here:
  \<open>Dumped out\<close> is \<^verbatim>\<open>json.dumps(result.__dict__ ...)\<close> of the tool's result, the text
  \<open>out\<close>; \<open>ExecError a e\<close> is \<^verbatim>\<open>f"Error executing {step.action}: {str(e)}"\<close> for
  the action \<open>a\<close> and the exception text \<open>e\<close>.
\<close>

datatype observation = Dumped string | ExecError json string

text \<open>\<^verbatim>\<open>AgentStep\<close> without its timestamp.\<close>

record agent_step =
  step_number :: int
  thought :: json
  action :: json
  action_input :: json
  observation :: "observation option"

text \<open>The exceptions that leave \<^verbatim>\<open>Agent.run\<close>: \<^verbatim>\<open>AttributeError\<close> from calling
  \<^verbatim>\<open>.get\<close> on a value that is not a dict, an exception of \<^verbatim>\<open>json.loads\<close> other than
  \<^verbatim>\<open>JSONDecodeError\<close>, an exception raised by the \<^verbatim>\<open>on_step\<close> callback, and an
  exception of the tool executor that is not an instance of \<^verbatim>\<open>Exception\<close>.\<close>

datatype exn =
    AttributeError
  | DecoderRaised string
  | CallbackRaised string
  | ExecutorRaised string

text \<open>\<^verbatim>\<open>AgentStep(step_number=step_num, thought="")\<close>.\<close>

definition new_step :: "int \<Rightarrow> agent_step" where
  "new_step step_num =
     \<lparr>step_number = step_num, thought = JString [], action = JNull, action_input = JNull,
      observation = None\<rparr>"

text \<open>\<^verbatim>\<open>Agent._parse_response\<close> (agent.py, lines 199 to 220).\<close>

definition parse_response :: "decoder \<Rightarrow> string \<Rightarrow> int \<Rightarrow> exn + agent_step" where
  "parse_response loads response step_num =
     (let step = new_step step_num;
          start = py_find CHR ''{'' response;
          end = py_rfind CHR ''}'' response + 1
      in if start \<ge> 0 \<and> end > start then
           (case loads (py_slice response start end) of
              Decoded data \<Rightarrow>
                (case data of
                   JObject kvs \<Rightarrow>
                     Inr (step\<lparr>thought := dict_get kvs ''thought'' (JString []),
                               action := dict_get kvs ''action'' JNull,
                               action_input := dict_get kvs ''action_input'' (JObject [])\<rparr>)
                 | _ \<Rightarrow> Inl AttributeError)
            | JSONDecodeError \<Rightarrow> Inr (step\<lparr>thought := JString response\<rparr>)
            | LoadsRaised e \<Rightarrow> Inl (DecoderRaised e))
         else Inr (step\<lparr>thought := JString response\<rparr>))"

section \<open>Tasks, the transcript and the environment of a run\<close>

datatype agent_state = IDLE | THINKING | ACTING | WAITING | COMPLETED | ERROR

text \<open>\<^verbatim>\<open>AgentTask\<close> without its identifier and timestamps. The page context is only
  formatted into the system prompt, so its type is left open. \<open>result = JNull\<close> is
  \<^verbatim>\<open>result = None\<close>.\<close>

record 'c agent_task =
  description :: string
  "context" :: 'c
  steps :: "agent_step list"
  state :: agent_state
  result :: json
  error :: "string option"

text \<open>
  The entries of the list \<^verbatim>\<open>messages\<close>. \<open>Plain\<close> carries a literal text;
  \<open>StepRecord n t a i ob\<close> is the f-string
  \<^verbatim>\<open>"Step {n}:\nThought: {t}\nAction: {a}\nAction Input: {json.dumps(i)}\nObservation: {ob}"\<close>
  with its five arguments unformatted. The prompt \<^verbatim>\<open>"\n\n".join(messages)\<close> is
  handed to the provider as the list itself.
\<close>

datatype message = Plain string | StepRecord int json json json "observation option"

definition user_task_message :: "string \<Rightarrow> message" where
  \<open>user_task_message task_description =
     Plain (''User task: '' @ task_description @ [CHR 0x0A, CHR 0x0A] @
            ''Begin by analyzing the page and planning your approach.'')\<close>

definition invalid_json_message :: message where
  \<open>invalid_json_message =
     Plain ''Your response wasn't valid JSON. Please respond with proper JSON format.''\<close>

definition max_steps_error :: string where
  "max_steps_error = ''Max steps reached without completing task''"

definition cancelled_error :: string where
  "cancelled_error = ''Task cancelled by user''"

text \<open>
  Everything a run awaits lives outside the agent and is a parameter, acting on a state
  \<open>'w\<close> of the outside world:
  \<^item> \<open>generate w c ms\<close> is \<^verbatim>\<open>llm_engine.generate(prompt, system_prompt, 0.3, 1024)\<close>
    for the context \<open>c\<close> (from which the system prompt is built) and the transcript
    \<open>ms\<close>. Both adapters catch every \<^verbatim>\<open>Exception\<close> and return a text, so the call
    has no error branch (a cancellation of the run itself while it waits for the
    provider is not modelled);
  \<^item> a tool executor ends in one of three ways, told apart by \<open>executor_outcome\<close>
    because line 182 is \<^verbatim>\<open>except Exception\<close>: \<open>ToolReturned out\<close> when it returned
    and \<^verbatim>\<open>json.dumps\<close> of its result is \<open>out\<close>; \<open>ToolRaised e\<close> when the executor
    or \<^verbatim>\<open>json.dumps\<close> (both stand inside the \<^verbatim>\<open>try\<close>) raised an instance of
    \<^verbatim>\<open>Exception\<close> whose text is \<open>e\<close>; \<open>ToolRaisedBase e\<close> when the executor raised
    an exception outside \<^verbatim>\<open>Exception\<close>, such as \<^verbatim>\<open>asyncio.CancelledError\<close> or
    \<^verbatim>\<open>KeyboardInterrupt\<close>, which the handler does not catch;
  \<^item> a step callback returns \<open>Some e\<close> when it raised and \<open>None\<close> when it returned;
  \<^item> \<open>stop_called w\<close> says whether \<^verbatim>\<open>Agent.stop\<close> ran while the run was suspended in
    the await that ended in world \<open>w\<close>. The event loop is cooperative, so another
    coroutine can run only there.
\<close>

record ('w, 'c) env =
  loads :: decoder
  generate :: "'w \<Rightarrow> 'c \<Rightarrow> message list \<Rightarrow> string \<times> 'w"
  stop_called :: "'w \<Rightarrow> bool"

datatype executor_outcome = ToolReturned string | ToolRaised string | ToolRaisedBase string

type_synonym 'w tool_executor = "'w \<Rightarrow> json \<Rightarrow> json \<Rightarrow> executor_outcome \<times> 'w"

type_synonym 'w step_callback = "'w \<Rightarrow> agent_step \<Rightarrow> string option \<times> 'w"

record ('w, 'c) agent =
  max_steps :: int
  current_task :: "'c agent_task option"
  tool_executor :: "'w tool_executor option"

section \<open>\<^verbatim>\<open>Agent.stop\<close>\<close>

text \<open>The two assignments of \<^verbatim>\<open>stop\<close> (agent.py, lines 259 and 260).\<close>

definition cancel_task :: "'c agent_task \<Rightarrow> 'c agent_task" where
  "cancel_task t = t\<lparr>state := ERROR, error := Some cancelled_error\<rparr>"

definition stop :: "('w, 'c) agent \<Rightarrow> ('w, 'c) agent" where
  "stop self =
     (case current_task self of
        None \<Rightarrow> self
      | Some t \<Rightarrow> self\<lparr>current_task := Some (cancel_task t)\<rparr>)"

section \<open>\<^verbatim>\<open>Agent.run\<close>\<close>

text \<open>
  The state of the loop: the task (the object that \<^verbatim>\<open>self.current_task\<close> also refers
  to from line 127 on), the transcript, the outside world, and a counter of the calls of
  \<^verbatim>\<open>llm_engine.generate\<close>, which is not a variable of the source and only records
  how often line 154 ran. The fields \<^verbatim>\<open>max_steps\<close> and \<^verbatim>\<open>tool_executor\<close> of the agent
  are not reassigned while the run lasts, and no second run of the same agent replaces
  \<^verbatim>\<open>self.current_task\<close> meanwhile, so a \<^verbatim>\<open>stop\<close> acts on the task of this run.
\<close>

record ('w, 'c) run_state =
  task :: "'c agent_task"
  messages :: "message list"
  world :: 'w
  generate_calls :: nat

text \<open>How one pass through the loop body ends: at its last line, at the \<^verbatim>\<open>break\<close>,
  or with an exception that nothing in \<^verbatim>\<open>run\<close> catches.\<close>

datatype ('w, 'c) flow =
    Continue "('w, 'c) run_state"
  | Break "('w, 'c) run_state"
  | Raise exn "('w, 'c) run_state"

text \<open>When an await returns, a \<^verbatim>\<open>stop\<close> that ran meanwhile has acted on the task.\<close>

definition resume :: "('w, 'c) env \<Rightarrow> 'w \<Rightarrow> 'c agent_task \<Rightarrow> 'c agent_task" where
  "resume E w t = (if stop_called E w then cancel_task t else t)"

text \<open>Lines 148 to 159: the state is set to \<^verbatim>\<open>THINKING\<close> and the provider is awaited.\<close>

definition get_llm_response ::
  "('w, 'c) env \<Rightarrow> ('w, 'c) run_state \<Rightarrow> string \<times> ('w, 'c) run_state" where
  "get_llm_response E s =
     (let t = (task s)\<lparr>state := THINKING\<rparr>;
          (response, w) = generate E (world s) (context t) (messages s)
      in (response,
          s\<lparr>task := resume E w t, world := w, generate_calls := Suc (generate_calls s)\<rparr>))"

text \<open>Lines 165 and 166: \<^verbatim>\<open>if on_step: await on_step(step)\<close>.\<close>

definition call_on_step ::
  "('w, 'c) env \<Rightarrow> 'w step_callback option \<Rightarrow> agent_step \<Rightarrow> ('w, 'c) run_state
     \<Rightarrow> string option \<times> ('w, 'c) run_state" where
  "call_on_step E on_step step s =
     (case on_step of
        None \<Rightarrow> (None, s)
      | Some f \<Rightarrow>
          (let (raised, w) = f (world s) step
           in (raised, s\<lparr>task := resume E w (task s), world := w\<rparr>)))"

text \<open>Lines 169 to 173. \<^verbatim>\<open>step.action_input.get\<close> exists only when the value is a
  dict; the state is already \<^verbatim>\<open>COMPLETED\<close> when the \<^verbatim>\<open>AttributeError\<close> is raised.\<close>

definition check_if_done :: "agent_step \<Rightarrow> ('w, 'c) run_state \<Rightarrow> ('w, 'c) flow option" where
  "check_if_done step s =
     (if action step = JString ''answer_user'' then
        (let t = (task s)\<lparr>state := COMPLETED\<rparr>
         in case action_input step of
              JObject kvs \<Rightarrow>
                Some (Break (s\<lparr>task := t\<lparr>result :=
                                 dict_get kvs ''message'' (JString ''Task completed'')\<rparr>\<rparr>))
            | _ \<Rightarrow> Some (Raise AttributeError (s\<lparr>task := t\<rparr>)))
      else None)"

text \<open>Lines 176 to 187. The step is the last element of \<^verbatim>\<open>task.steps\<close>, so setting its
  observation changes the task as well. An exception that \<^verbatim>\<open>except Exception\<close> does not
  catch leaves \<^verbatim>\<open>run\<close> from inside the \<^verbatim>\<open>try\<close>: the state is still \<^verbatim>\<open>ACTING\<close> (unless
  a \<^verbatim>\<open>stop\<close> ran), and neither the observation nor the transcript has been written.\<close>

definition record_observation ::
  "int \<Rightarrow> agent_step \<Rightarrow> observation \<Rightarrow> 'c agent_task \<Rightarrow> 'w \<Rightarrow> ('w, 'c) run_state
     \<Rightarrow> ('w, 'c) run_state" where
  "record_observation step_num step ob t w s =
     (let step = step\<lparr>observation := Some ob\<rparr>
      in s\<lparr>task := t\<lparr>steps := (steps t)[length (steps t) - 1 := step]\<rparr>,
           world := w,
           messages := messages s @
             [StepRecord step_num (thought step) (action step) (action_input step)
                (observation step)]\<rparr>)"

definition execute_action ::
  "('w, 'c) env \<Rightarrow> ('w, 'c) agent \<Rightarrow> int \<Rightarrow> agent_step \<Rightarrow> ('w, 'c) run_state
     \<Rightarrow> exn option \<times> ('w, 'c) run_state" where
  "execute_action E self step_num step s =
     (case tool_executor self of
        None \<Rightarrow> (None, s)
      | Some executor \<Rightarrow>
          if truthy (action step) then
            (let t = (task s)\<lparr>state := ACTING\<rparr>;
                 (r, w) = executor (world s) (action step) (or_empty_dict (action_input step));
                 t = resume E w t
             in case r of
                  ToolReturned out \<Rightarrow>
                    (None, record_observation step_num step (Dumped out) t w s)
                | ToolRaised e \<Rightarrow>
                    (None, record_observation step_num step (ExecError (action step) e)
                             (t\<lparr>state := ERROR\<rparr>) w s)
                | ToolRaisedBase e \<Rightarrow>
                    (Some (ExecutorRaised e), s\<lparr>task := t, world := w\<rparr>))
          else (None, s))"

text \<open>Lines 190 and 191.\<close>

definition check_for_errors :: "agent_step \<Rightarrow> ('w, 'c) run_state \<Rightarrow> ('w, 'c) run_state" where
  "check_for_errors step s =
     (if action step = JNull then s\<lparr>messages := messages s @ [invalid_json_message]\<rparr> else s)"

text \<open>Line 163: \<^verbatim>\<open>task.steps.append(step)\<close>.\<close>

definition append_step :: "agent_step \<Rightarrow> ('w, 'c) run_state \<Rightarrow> ('w, 'c) run_state" where
  "append_step step s = s\<lparr>task := (task s)\<lparr>steps := steps (task s) @ [step]\<rparr>\<rparr>"

text \<open>The body of the \<^verbatim>\<open>for\<close> loop, lines 148 to 191.\<close>

definition loop_body ::
  "('w, 'c) env \<Rightarrow> ('w, 'c) agent \<Rightarrow> 'w step_callback option \<Rightarrow> int \<Rightarrow> ('w, 'c) run_state
     \<Rightarrow> ('w, 'c) flow" where
  "loop_body E self on_step step_num s =
     (let (response, s) = get_llm_response E s
      in case parse_response (loads E) response step_num of
           Inl e \<Rightarrow> Raise e s
         | Inr step \<Rightarrow>
             (let (raised, s) = call_on_step E on_step step (append_step step s)
              in case raised of
                   Some e \<Rightarrow> Raise (CallbackRaised e) s
                 | None \<Rightarrow>
                     (case check_if_done step s of
                        Some done \<Rightarrow> done
                      | None \<Rightarrow>
                          (case execute_action E self step_num step s of
                             (Some e, s) \<Rightarrow> Raise e s
                           | (None, s) \<Rightarrow> Continue (check_for_errors step s)))))"

text \<open>\<^verbatim>\<open>for step_num in range(1, self.max_steps + 1)\<close> over the list of step numbers.\<close>

fun for_steps ::
  "('w, 'c) env \<Rightarrow> ('w, 'c) agent \<Rightarrow> 'w step_callback option \<Rightarrow> int list \<Rightarrow> ('w, 'c) run_state
     \<Rightarrow> ('w, 'c) flow" where
  "for_steps E self on_step [] s = Continue s"
| "for_steps E self on_step (step_num # rest) s =
     (case loop_body E self on_step step_num s of
        Continue s' \<Rightarrow> for_steps E self on_step rest s'
      | Break s' \<Rightarrow> Break s'
      | Raise e s' \<Rightarrow> Raise e s')"

text \<open>Lines 193 to 197: the check after the loop and the return.\<close>

definition finish :: "('w, 'c) run_state \<Rightarrow> (exn + 'c agent_task) \<times> ('w, 'c) run_state" where
  "finish s =
     (let t = task s;
          t = (if state t \<noteq> COMPLETED
               then t\<lparr>state := ERROR, error := Some max_steps_error\<rparr> else t)
      in (Inr t, s\<lparr>task := t\<rparr>))"

text \<open>
  \<^verbatim>\<open>Agent.run\<close>: \<open>Inr\<close> the returned task, or \<open>Inl\<close> the exception that reaches the
  caller, together with the final state of the loop. The construction of the system
  prompt from the context (lines 130 to 140) has no part in the loop and is left out.
\<close>

definition initial_state :: "string \<Rightarrow> 'c \<Rightarrow> 'w \<Rightarrow> ('w, 'c) run_state" where
  "initial_state task_description ctx w =
     \<lparr>task = \<lparr>description = task_description, context = ctx, steps = [],
               state = THINKING, result = JNull, error = None\<rparr>,
      messages = [user_task_message task_description], world = w, generate_calls = 0\<rparr>"

definition run ::
  "('w, 'c) env \<Rightarrow> ('w, 'c) agent \<Rightarrow> string \<Rightarrow> 'c \<Rightarrow> 'w step_callback option \<Rightarrow> 'w
     \<Rightarrow> (exn + 'c agent_task) \<times> ('w, 'c) run_state" where
  "run E self task_description ctx on_step w =
     (case for_steps E self on_step [1..max_steps self] (initial_state task_description ctx w) of
        Continue s \<Rightarrow> finish s
      | Break s \<Rightarrow> finish s
      | Raise e s \<Rightarrow> (Inl e, s))"

section \<open>The engine manager and \<^verbatim>\<open>switch_mode\<close>\<close>

text \<open>
  \<^verbatim>\<open>src/ai/llm_engine.py\<close> and \<^verbatim>\<open>src/ai/gemini_engine.py\<close>. The state of the two
  adapters, as far as \<^verbatim>\<open>initialize\<close> reads and writes it. The field \<^verbatim>\<open>model\<close> of
  the Gemini adapter is the client object; only whether it has been built is kept.
\<close>

record ollama_engine =
  ollama_model :: string
  ollama_available :: bool

record gemini_engine =
  model_name :: string
  api_key :: "string option"
  gemini_available :: bool
  gemini_client :: bool

text \<open>
  What an \<^verbatim>\<open>initialize\<close> finds outside the process when it runs:
  \<^item> \<open>gemini_api_key\<close>: \<^verbatim>\<open>settings.gemini_api_key\<close> (\<^verbatim>\<open>None\<close> or a text);
  \<^item> \<open>genai_raises\<close>: whether \<^verbatim>\<open>genai.configure\<close> or the constructor of
    \<^verbatim>\<open>GenerativeModel\<close> raises;
  \<^item> \<open>ollama_tags\<close>: the answer to \<^verbatim>\<open>GET /api/tags\<close>, either the status code with the
    names of the models in the body, or \<open>TagsRaised\<close> when the request or the reading
    of the body raised;
  \<^item> \<open>fallback_model\<close>: \<^verbatim>\<open>settings.fallback_model\<close>.
\<close>

datatype tags_response = Tags int "string list" | TagsRaised

record probe =
  gemini_api_key :: "string option"
  genai_raises :: bool
  ollama_tags :: tags_response
  fallback_model :: string

text \<open>\<^verbatim>\<open>name.split(":")[0]\<close>.\<close>

definition before_colon :: "string \<Rightarrow> string" where
  "before_colon name = takeWhile (\<lambda>x. x \<noteq> CHR '':'') name"

text \<open>\<^verbatim>\<open>OllamaEngine.initialize\<close> (llm_engine.py, lines 21 to 48).\<close>

definition ollama_initialize :: "probe \<Rightarrow> ollama_engine \<Rightarrow> bool \<times> ollama_engine" where
  "ollama_initialize P self =
     (case ollama_tags P of
        TagsRaised \<Rightarrow> (False, self)
      | Tags status_code model_names \<Rightarrow>
          if status_code = 200 then
            if ollama_model self \<in> set model_names
               \<or> before_colon (ollama_model self) \<in> set (map before_colon model_names)
            then (True, self\<lparr>ollama_available := True\<rparr>)
            else if fallback_model P \<in> set model_names
            then (True, self\<lparr>ollama_model := fallback_model P, ollama_available := True\<rparr>)
            else (False, self)
          else (False, self))"

text \<open>\<^verbatim>\<open>GeminiEngine.initialize\<close> (gemini_engine.py, lines 24 to 41). \<^verbatim>\<open>not self.api_key\<close>
  holds for \<^verbatim>\<open>None\<close> and for the empty text.\<close>

definition gemini_initialize :: "probe \<Rightarrow> gemini_engine \<Rightarrow> bool \<times> gemini_engine" where
  "gemini_initialize P self =
     (let self = self\<lparr>api_key := gemini_api_key P\<rparr>
      in if api_key self = None \<or> api_key self = Some [] then (False, self)
         else if genai_raises P then (False, self)
         else (True, self\<lparr>gemini_client := True, gemini_available := True\<rparr>))"

datatype engine_ref = Ollama | Gemini

text \<open>\<^verbatim>\<open>LLMEngine\<close>. \<open>active_engine\<close> is a reference to one of the two adapters the manager
  owns; \<open>model\<close> is \<open>None\<close> until an adapter has given its model identifier.\<close>

record llm_engine =
  ollama :: ollama_engine
  gemini :: gemini_engine
  mode :: string
  active_engine :: engine_ref
  model :: "string option"
  model_available :: bool

text \<open>\<^verbatim>\<open>LLMEngine.switch_mode\<close> (llm_engine.py, lines 156 to 175).\<close>

definition switch_mode :: "probe \<Rightarrow> string \<Rightarrow> llm_engine \<Rightarrow> bool \<times> llm_engine" where
  "switch_mode P target self =
     (if target = ''online'' then
        (let (ok, g) = gemini_initialize P (gemini self); self = self\<lparr>gemini := g\<rparr>
         in if ok then
              (True, self\<lparr>mode := ''online'', active_engine := Gemini,
                          model := Some (model_name (gemini self))\<rparr>)
            else (False, self))
      else if target = ''offline'' then
        (let (ok, l) = ollama_initialize P (ollama self); self = self\<lparr>ollama := l\<rparr>
         in if ok then
              (True, self\<lparr>mode := ''offline'', active_engine := Ollama,
                          model := Some (ollama_model (ollama self))\<rparr>)
            else (False, self))
      else (False, self))"

section \<open>A scripted environment for closed examples\<close>

text \<open>
  The values of \<^verbatim>\<open>json.loads\<close> on the replies used in the examples, which include the
  two replies of the scenario in section 8 of the specification. On an object whose
  member opens a thousand nested arrays the decoder runs into the interpreter's
  recursion limit and raises \<^verbatim>\<open>RecursionError\<close>. Any other text is
  outside the table and is answered by \<open>LoadsRaised\<close>, so that no example can rest on
  a value the table does not list.
\<close>

definition example_loads :: decoder where
  \<open>example_loads s =
     (if s = ''{"thought":"locate button","action":"click","action_input":{"selector":"#login"}}''
      then Decoded (JObject [(''thought'', JString ''locate button''),
                             (''action'', JString ''click''),
                             (''action_input'', JObject [(''selector'', JString ''#login'')])])
      else if s = ''{"thought":"done","action":"answer_user","action_input":{"message":"Clicked login"}}''
      then Decoded (JObject [(''thought'', JString ''done''),
                             (''action'', JString ''answer_user''),
                             (''action_input'', JObject [(''message'', JString ''Clicked login'')])])
      else if s = ''{"thought":"done","action":"answer_user","action_input":{}}''
      then Decoded (JObject [(''thought'', JString ''done''),
                             (''action'', JString ''answer_user''),
                             (''action_input'', JObject [])])
      else if s = ''{"thought":"done","action":"answer_user","action_input":null}''
      then Decoded (JObject [(''thought'', JString ''done''),
                             (''action'', JString ''answer_user''),
                             (''action_input'', JNull)])
      else if s = ''{"action":"click"}''
      then Decoded (JObject [(''action'', JString ''click'')])
      else if s = ''{not json}''
      then JSONDecodeError
      else if s = ''{"a":'' @ replicate 1000 CHR ''['' @ ''}''
      then LoadsRaised ''RecursionError''
      else LoadsRaised ''not in the table'')\<close>

text \<open>
  The world of the examples: the replies the provider will give, each with the flag
  whether \<^verbatim>\<open>stop\<close> runs while that reply is awaited, and the flag of the await that
  has just ended. The scripted provider ignores the prompt.
\<close>

type_synonym script = "(string \<times> bool) list \<times> bool"

definition scripted_generate :: "script \<Rightarrow> unit \<Rightarrow> message list \<Rightarrow> string \<times> script" where
  "scripted_generate w c ms =
     (case fst w of
        [] \<Rightarrow> ([], ([], False))
      | (reply, stopped) # rest \<Rightarrow> (reply, (rest, stopped)))"

definition example_env :: "(script, unit) env" where
  "example_env = \<lparr>loads = example_loads, generate = scripted_generate, stop_called = snd\<rparr>"

text \<open>A tool executor that returns \<^verbatim>\<open>{"success": true}\<close>, one that raises an
  \<^verbatim>\<open>Exception\<close>, one whose await is cancelled (\<^verbatim>\<open>asyncio.CancelledError\<close>, which is
  not an \<^verbatim>\<open>Exception\<close>), and a callback that raises; no \<^verbatim>\<open>stop\<close> runs while they are
  awaited.\<close>

definition executor_ok :: "script tool_executor" where
  \<open>executor_ok w name params = (ToolReturned ''{"success": true}'', (fst w, False))\<close>

definition executor_raising :: "script tool_executor" where
  "executor_raising w name params = (ToolRaised ''element not found'', (fst w, False))"

definition executor_cancelled :: "script tool_executor" where
  "executor_cancelled w name params = (ToolRaisedBase ''CancelledError'', (fst w, False))"

definition callback_raising :: "script step_callback" where
  "callback_raising w step = (Some ''connection closed'', (fst w, False))"

definition example_agent :: "int \<Rightarrow> script tool_executor option \<Rightarrow> (script, unit) agent" where
  "example_agent n executor = \<lparr>max_steps = n, current_task = None, tool_executor = executor\<rparr>"

text \<open>The scripts of the examples. \<open>script_login\<close> is the scenario of section 8 of the
  specification; in \<open>script_stopped\<close> a \<^verbatim>\<open>stop\<close> runs while the first reply is
  awaited.\<close>

definition script_login :: script where
  \<open>script_login =
     ([(''{"thought":"locate button","action":"click","action_input":{"selector":"#login"}}'', False),
       (''{"thought":"done","action":"answer_user","action_input":{"message":"Clicked login"}}'', False)],
      False)\<close>

definition script_no_message :: script where
  \<open>script_no_message =
     ([(''{"thought":"done","action":"answer_user","action_input":{}}'', False)], False)\<close>

definition script_null_input :: script where
  \<open>script_null_input =
     ([(''{"thought":"done","action":"answer_user","action_input":null}'', False)], False)\<close>

definition script_prose :: script where
  "script_prose = ([(''hello'', False), (''{not json}'', False)], False)"

definition script_stopped :: script where
  "script_stopped = ([(''hello'', True), (''hello'', False)], False)"

definition script_click :: script where
  \<open>script_click = ([(''{"action":"click"}'', False), (''hello'', False)], False)\<close>


text \<open>An engine manager running on the local adapter, and two probes: in \<open>probe_no_key\<close>
  no API key is configured, in \<open>probe_key\<close> one is; Ollama answers both with the
  fallback model only.\<close>

definition example_engine :: llm_engine where
  "example_engine =
     \<lparr>ollama = \<lparr>ollama_model = ''llama3.2:3b'', ollama_available = True\<rparr>,
      gemini = \<lparr>model_name = ''gemini-2.0-flash-exp'', api_key = None,
                gemini_available = False, gemini_client = False\<rparr>,
      mode = ''offline'', active_engine = Ollama, model = Some ''llama3.2:3b'',
      model_available = True\<rparr>"

definition probe_no_key :: probe where
  "probe_no_key =
     \<lparr>gemini_api_key = None, genai_raises = False,
      ollama_tags = Tags 200 [''llama3.2:1b''], fallback_model = ''llama3.2:1b''\<rparr>"

definition probe_key :: probe where
  "probe_key = probe_no_key\<lparr>gemini_api_key := Some ''secret''\<rparr>"

section \<open>The first and the last brace\<close>

















section \<open>What one pass through the loop changes\<close>

lemma get_llm_response_fields:
  assumes "get_llm_response E s = (response, s1)"
  shows "steps (task s1) = steps (task s)" and "generate_calls s1 = Suc (generate_calls s)"
    and "messages s1 = messages s"
  using assms
  by (auto simp: get_llm_response_def resume_def cancel_task_def Let_def split: prod.splits if_splits)

lemma get_llm_response_state:
  assumes "get_llm_response E s = (response, s1)"
  shows "state (task s1) \<noteq> COMPLETED"
  using assms
  by (auto simp: get_llm_response_def resume_def cancel_task_def Let_def split: prod.splits if_splits)

lemma call_on_step_fields:
  assumes "call_on_step E cb step s = (r, s')"
  shows "steps (task s') = steps (task s)" and "generate_calls s' = generate_calls s"
    and "messages s' = messages s"
  using assms
  by (auto simp: call_on_step_def resume_def cancel_task_def Let_def
           split: option.splits prod.splits if_splits)

lemma call_on_step_state:
  assumes "call_on_step E cb step s = (r, s')" and "state (task s) \<noteq> COMPLETED"
  shows "state (task s') \<noteq> COMPLETED"
  using assms
  by (auto simp: call_on_step_def resume_def cancel_task_def Let_def
           split: option.splits prod.splits if_splits)

lemma execute_action_fields:
  assumes "execute_action E self n step s = (None, s')" and "steps (task s) = xs @ [step]"
  shows "\<exists>st. steps (task s') = xs @ [st] \<and> action st = action step"
    and "generate_calls s' = generate_calls s"
proof -
  show "\<exists>st. steps (task s') = xs @ [st] \<and> action st = action step"
    using assms
    by (auto simp: execute_action_def record_observation_def resume_def cancel_task_def Let_def
           split: option.splits prod.splits if_splits executor_outcome.splits)
  show "generate_calls s' = generate_calls s"
    using assms(1)
    by (auto simp: execute_action_def record_observation_def Let_def
           split: option.splits prod.splits if_splits executor_outcome.splits)
qed

lemma execute_action_calls:
  assumes "execute_action E self n step s = (r, s')"
  shows "generate_calls s' = generate_calls s"
  using assms
  by (auto simp: execute_action_def record_observation_def Let_def
         split: option.splits prod.splits if_splits executor_outcome.splits)

lemma execute_action_state:
  assumes "execute_action E self n step s = (r, s')" and "state (task s) \<noteq> COMPLETED"
  shows "state (task s') \<noteq> COMPLETED"
  using assms
  by (auto simp: execute_action_def record_observation_def resume_def cancel_task_def Let_def
           split: option.splits prod.splits if_splits executor_outcome.splits)

lemma check_for_errors_fields:
  "task (check_for_errors step s) = task s"
  "generate_calls (check_for_errors step s) = generate_calls s"
  by (simp_all add: check_for_errors_def)

text \<open>
  A pass that reaches the end of the body has made one provider call and appended one
  step, whose action is not the terminal one, and has not completed the task.
\<close>

lemma loop_body_Continue:
  assumes "loop_body E self cb n s = Continue s'"
  shows "\<exists>st. steps (task s') = steps (task s) @ [st] \<and> action st \<noteq> JString ''answer_user''"
    and "generate_calls s' = Suc (generate_calls s)"
proof -
  obtain response s1 where g: "get_llm_response E s = (response, s1)" by fastforce
  from assms g obtain step where p: "parse_response (loads E) response n = Inr step"
    by (auto simp: loop_body_def split: sum.splits)
  obtain r s2 where c: "call_on_step E cb step (append_step step s1) = (r, s2)" by fastforce
  obtain x s3 where e: "execute_action E self n step s2 = (x, s3)" by fastforce
  from assms g p c e have r: "r = None" and d: "check_if_done step s2 = None"
    and x: "x = None" and s': "s' = check_for_errors step s3"
    by (auto simp: loop_body_def check_if_done_def Let_def split: option.splits if_splits json.splits)
  from d have nt: "action step \<noteq> JString ''answer_user''"
    by (auto simp: check_if_done_def Let_def split: if_splits json.splits)
  have st2: "steps (task s2) = steps (task s) @ [step]"
    using call_on_step_fields(1)[OF c] get_llm_response_fields(1)[OF g]
    by (simp add: append_step_def)
  from execute_action_fields(1)[OF e[unfolded x] st2] obtain st where
    "steps (task s3) = steps (task s) @ [st]" "action st = action step"
    by blast
  with s' nt show "\<exists>st. steps (task s') = steps (task s) @ [st] \<and> action st \<noteq> JString ''answer_user''"
    by (auto simp: check_for_errors_fields)
  show "generate_calls s' = Suc (generate_calls s)"
    using s' execute_action_calls[OF e] call_on_step_fields(2)[OF c]
      get_llm_response_fields(2)[OF g]
    by (simp add: check_for_errors_fields append_step_def)
qed

lemma loop_body_Continue_state:
  assumes "loop_body E self cb n s = Continue s'"
  shows "state (task s') \<noteq> COMPLETED"
proof -
  obtain response s1 where g: "get_llm_response E s = (response, s1)" by fastforce
  from assms g obtain step where p: "parse_response (loads E) response n = Inr step"
    by (auto simp: loop_body_def split: sum.splits)
  obtain r s2 where c: "call_on_step E cb step (append_step step s1) = (r, s2)" by fastforce
  obtain x s3 where e: "execute_action E self n step s2 = (x, s3)" by fastforce
  from assms g p c e have s': "s' = check_for_errors step s3"
    by (auto simp: loop_body_def check_if_done_def Let_def split: option.splits if_splits json.splits)
  have "state (task (append_step step s1)) \<noteq> COMPLETED"
    using get_llm_response_state[OF g] by (simp add: append_step_def)
  from call_on_step_state[OF c this] have "state (task s2) \<noteq> COMPLETED" .
  from execute_action_state[OF e this] show ?thesis
    by (simp add: s' check_for_errors_fields)
qed

text \<open>
  A pass that ends at the \<^verbatim>\<open>break\<close> has appended the terminal step and set the result.
\<close>

lemma loop_body_Break:
  assumes "loop_body E self cb n s = Break s'"
  shows "\<exists>st kvs. steps (task s') = steps (task s) @ [st] \<and> action st = JString ''answer_user''
           \<and> action_input st = JObject kvs
           \<and> result (task s') = dict_get kvs ''message'' (JString ''Task completed'')"
    and "state (task s') = COMPLETED"
    and "generate_calls s' = Suc (generate_calls s)"
proof -
  obtain response s1 where g: "get_llm_response E s = (response, s1)" by fastforce
  from assms g obtain step where p: "parse_response (loads E) response n = Inr step"
    by (auto simp: loop_body_def split: sum.splits)
  obtain r s2 where c: "call_on_step E cb step (append_step step s1) = (r, s2)" by fastforce
  obtain x s3 where e: "execute_action E self n step s2 = (x, s3)" by fastforce
  from assms g p c e have r: "r = None" and d: "check_if_done step s2 = Some (Break s')"
    by (auto simp: loop_body_def Let_def split: option.splits if_splits)
  have st2: "steps (task s2) = steps (task s) @ [step]"
    using call_on_step_fields(1)[OF c] get_llm_response_fields(1)[OF g]
    by (simp add: append_step_def)
  have gc: "generate_calls s2 = Suc (generate_calls s)"
    using call_on_step_fields(2)[OF c] get_llm_response_fields(2)[OF g]
    by (simp add: append_step_def)
  from d st2 show "\<exists>st kvs. steps (task s') = steps (task s) @ [st] \<and> action st = JString ''answer_user''
           \<and> action_input st = JObject kvs
           \<and> result (task s') = dict_get kvs ''message'' (JString ''Task completed'')"
    by (auto simp: check_if_done_def Let_def split: if_splits json.splits)
  from d show "state (task s') = COMPLETED"
    by (auto simp: check_if_done_def Let_def split: if_splits json.splits)
  from d gc show "generate_calls s' = Suc (generate_calls s)"
    by (auto simp: check_if_done_def Let_def split: if_splits json.splits)
qed

text \<open>
  A pass that ends in an exception has made its provider call.
\<close>

lemma loop_body_Raise:
  assumes "loop_body E self cb n s = Raise e s'"
  shows "generate_calls s' = Suc (generate_calls s)"
proof -
  obtain response s1 where g: "get_llm_response E s = (response, s1)" by fastforce
  note g1 = get_llm_response_fields(2)[OF g]
  show ?thesis
  proof (cases "parse_response (loads E) response n")
    case (Inl a)
    with assms g g1 show ?thesis by (simp add: loop_body_def)
  next
    case (Inr step)
    obtain r s2 where c: "call_on_step E cb step (append_step step s1) = (r, s2)" by fastforce
    have g2: "generate_calls s2 = Suc (generate_calls s)"
      using call_on_step_fields(2)[OF c] g1 by (simp add: append_step_def)
    obtain x s3 where x: "execute_action E self n step s2 = (x, s3)" by fastforce
    have g3: "generate_calls s3 = Suc (generate_calls s)"
      using execute_action_calls[OF x] g2 by simp
    from assms g Inr c x g2 g3 show ?thesis
      by (auto simp: loop_body_def check_if_done_def Let_def split: option.splits if_splits json.splits)
  qed
qed

section \<open>The loop as a whole\<close>

lemma for_steps_append:
  "for_steps E self cb (xs @ ys) s =
     (case for_steps E self cb xs s of
        Continue s' \<Rightarrow> for_steps E self cb ys s'
      | Break s' \<Rightarrow> Break s'
      | Raise e s' \<Rightarrow> Raise e s')"
  by (induction xs arbitrary: s) (auto split: flow.splits)

lemma for_steps_Continue:
  assumes "for_steps E self cb ns s = Continue s'"
  shows "\<exists>new. steps (task s') = steps (task s) @ new \<and> length new = length ns
           \<and> (\<forall>st \<in> set new. action st \<noteq> JString ''answer_user'')"
    and "generate_calls s' = generate_calls s + length ns"
  using assms
proof (induction ns arbitrary: s)
  case Nil
  { case 1 then show ?case by simp }
  { case 2 then show ?case by simp }
next
  case (Cons n ns)
  { case 1
    then obtain s1 where b: "loop_body E self cb n s = Continue s1"
      and f: "for_steps E self cb ns s1 = Continue s'"
      by (auto split: flow.splits)
    from loop_body_Continue(1)[OF b] obtain st where
      st: "steps (task s1) = steps (task s) @ [st]" "action st \<noteq> JString ''answer_user''" by blast
    from Cons.IH(1)[OF f] obtain new where
      "steps (task s') = steps (task s1) @ new" "length new = length ns"
      "\<forall>st \<in> set new. action st \<noteq> JString ''answer_user''" by blast
    with st have "steps (task s') = steps (task s) @ (st # new) \<and> length (st # new) = length (n # ns)
        \<and> (\<forall>x \<in> set (st # new). action x \<noteq> JString ''answer_user'')" by simp
    then show ?case by blast }
  { case 2
    then obtain s1 where b: "loop_body E self cb n s = Continue s1"
      and f: "for_steps E self cb ns s1 = Continue s'"
      by (auto split: flow.splits)
    show ?case using Cons.IH(2)[OF f] loop_body_Continue(2)[OF b] by simp }
qed

lemma for_steps_Continue_state:
  assumes "for_steps E self cb ns s = Continue s'" and "state (task s) \<noteq> COMPLETED"
  shows "state (task s') \<noteq> COMPLETED"
  using assms
proof (induction ns arbitrary: s)
  case Nil
  then show ?case by simp
next
  case (Cons n ns)
  then obtain s1 where b: "loop_body E self cb n s = Continue s1"
    and f: "for_steps E self cb ns s1 = Continue s'"
    by (auto split: flow.splits)
  from Cons.IH[OF f loop_body_Continue_state[OF b]] show ?case .
qed

lemma for_steps_Break:
  assumes "for_steps E self cb ns s = Break s'"
  shows "\<exists>new st kvs. steps (task s') = steps (task s) @ new @ [st] \<and> length new < length ns
           \<and> (\<forall>x \<in> set new. action x \<noteq> JString ''answer_user'')
           \<and> action st = JString ''answer_user'' \<and> action_input st = JObject kvs
           \<and> result (task s') = dict_get kvs ''message'' (JString ''Task completed'')
           \<and> state (task s') = COMPLETED
           \<and> generate_calls s' = generate_calls s + length new + 1"
  using assms
proof (induction ns arbitrary: s)
  case Nil
  then show ?case by simp
next
  case (Cons n ns)
  show ?case
  proof (cases "loop_body E self cb n s")
    case (Continue s1)
    with Cons.prems have f: "for_steps E self cb ns s1 = Break s'" by simp
    from loop_body_Continue[OF Continue] obtain st0 where
      st0: "steps (task s1) = steps (task s) @ [st0]" "action st0 \<noteq> JString ''answer_user''"
      and g0: "generate_calls s1 = Suc (generate_calls s)" by blast
    from Cons.IH[OF f] obtain new st kvs where
      h: "steps (task s') = steps (task s1) @ new @ [st]" "length new < length ns"
         "\<forall>x \<in> set new. action x \<noteq> JString ''answer_user''"
         "action st = JString ''answer_user''" "action_input st = JObject kvs"
         "result (task s') = dict_get kvs ''message'' (JString ''Task completed'')"
         "state (task s') = COMPLETED"
         "generate_calls s' = generate_calls s1 + length new + 1" by blast
    have "steps (task s') = steps (task s) @ (st0 # new) @ [st] \<and> length (st0 # new) < length (n # ns)
           \<and> (\<forall>x \<in> set (st0 # new). action x \<noteq> JString ''answer_user'')
           \<and> action st = JString ''answer_user'' \<and> action_input st = JObject kvs
           \<and> result (task s') = dict_get kvs ''message'' (JString ''Task completed'')
           \<and> state (task s') = COMPLETED
           \<and> generate_calls s' = generate_calls s + length (st0 # new) + 1"
      using h st0 g0 by simp
    then show ?thesis by blast
  next
    case (Break s1)
    with Cons.prems have [simp]: "s1 = s'" by simp
    from loop_body_Break[OF Break] obtain st kvs where
      "steps (task s') = steps (task s) @ [] @ [st]" "action st = JString ''answer_user''"
      "action_input st = JObject kvs"
      "result (task s') = dict_get kvs ''message'' (JString ''Task completed'')"
      "state (task s') = COMPLETED" "generate_calls s' = generate_calls s + length ([]::agent_step list) + 1"
      by auto
    then show ?thesis by (metis length_greater_0_conv list.distinct(1) list.size(3) empty_iff list.set(1) length_Cons zero_less_Suc)
  next
    case (Raise e s1)
    with Cons.prems show ?thesis by simp
  qed
qed

lemma for_steps_Raise:
  assumes "for_steps E self cb ns s = Raise e s'"
  shows "generate_calls s' \<le> generate_calls s + length ns"
  using assms
proof (induction ns arbitrary: s)
  case Nil
  then show ?case by simp
next
  case (Cons n ns)
  show ?case
  proof (cases "loop_body E self cb n s")
    case (Continue s1)
    with Cons.prems have "for_steps E self cb ns s1 = Raise e s'" by simp
    from Cons.IH[OF this] loop_body_Continue(2)[OF Continue] show ?thesis by simp
  next
    case (Break s1)
    with Cons.prems show ?thesis by simp
  next
    case (Raise e1 s1)
    with Cons.prems have "s1 = s'" by simp
    with loop_body_Raise[OF Raise] show ?thesis by simp
  qed
qed

lemma initial_state_fields:
  "steps (task (initial_state d c w)) = []" "generate_calls (initial_state d c w) = 0"
  by (simp_all add: initial_state_def)

lemma finish_fields:
  assumes "finish s = (r, s')"
  shows "generate_calls s' = generate_calls s"
    and "\<exists>t. r = Inr t \<and> steps t = steps (task s) \<and> result t = result (task s)
           \<and> (state (task s) = COMPLETED \<longrightarrow> t = task s)
           \<and> (state (task s) \<noteq> COMPLETED \<longrightarrow> state t = ERROR \<and> error t = Some max_steps_error)"
  using assms by (auto simp: finish_def Let_def split: if_splits)

text \<open>
  However a run ends, it has called the provider at most \<^verbatim>\<open>max_steps\<close> times, and a
  task it returns is completed or in error.
\<close>

lemma run_calls_le: "generate_calls (snd (run E self d c cb w)) \<le> nat (max_steps self)"
proof (cases "for_steps E self cb [1..max_steps self] (initial_state d c w)")
  case (Continue s)
  from for_steps_Continue(2)[OF Continue] show ?thesis
    using Continue finish_fields(1)[of s] by (cases "finish s") (simp add: run_def initial_state_fields)
next
  case (Break s)
  from for_steps_Break[OF Break] show ?thesis
    using Break finish_fields(1)[of s] by (cases "finish s") (auto simp add: run_def initial_state_fields)
next
  case (Raise e s)
  from for_steps_Raise[OF Raise] show ?thesis using Raise by (simp add: run_def initial_state_fields)
qed

lemma run_returned_state:
  assumes "run E self d c cb w = (Inr t, s')"
  shows "state t = COMPLETED \<or> state t = ERROR"
  using assms by (auto simp: run_def finish_def Let_def split: flow.splits if_splits)

section \<open>The claims about \<^verbatim>\<open>Agent.run\<close>\<close>

text \<open>
  Claim C1 says that \<^verbatim>\<open>run\<close> never raises when the callback does not. With a budget of
  one step, no callback and no tool executor, the reply
  \<^verbatim>\<open>{"thought":"done","action":"answer_user","action_input":null}\<close> makes
  \<^verbatim>\<open>step.action_input\<close> the value \<^verbatim>\<open>None\<close>, and line 171 calls \<^verbatim>\<open>.get\<close> on it:
  the \<^verbatim>\<open>AttributeError\<close> leaves \<^verbatim>\<open>run\<close>. Line 180 guards the same field with
  \<^verbatim>\<open>step.action_input or {}\<close>; line 171 does not.
\<close>

theorem run_raises_attribute_error:
  "fst (run example_env (example_agent 1 None) ''answer'' () None script_null_input)
     = Inl AttributeError"
  by code_simp

text \<open>
  Claim C2 as stated fails where the terminal action carries no \<^verbatim>\<open>message\<close>: the
  reply \<^verbatim>\<open>{"thought":"done","action":"answer_user","action_input":{}}\<close> completes
  the task with the default text of line 171 as its result.
\<close>

theorem run_result_default_counterexample:
  \<open>fst (run example_env (example_agent 1 None) ''t'' () None script_no_message)
     = Inr \<lparr>description = ''t'', context = (),
            steps = [\<lparr>step_number = 1, thought = JString ''done'',
                      action = JString ''answer_user'', action_input = JObject [],
                      observation = None\<rparr>],
            state = COMPLETED, result = JString ''Task completed'', error = None\<rparr>\<close>
  by code_simp

text \<open>
  Claim C2, amended. For every run that returns a task whose step \<open>k\<close> has the action
  \<^verbatim>\<open>answer_user\<close>: the task is completed, it has exactly \<open>k\<close> steps, the provider was
  called exactly \<open>k\<close> times, \<open>k\<close> is within the budget, the \<^verbatim>\<open>action_input\<close> of that
  step is a dict, and the result is its \<^verbatim>\<open>message\<close> entry when there is one and the
  text \<^verbatim>\<open>Task completed\<close> when there is none.
\<close>

theorem run_terminal_action:
  assumes "run E self d c cb w = (Inr t, s')"
      and "0 < k" and "k \<le> length (steps t)"
      and "action (steps t ! (k - 1)) = JString ''answer_user''"
  shows "state t = COMPLETED \<and> length (steps t) = k \<and> generate_calls s' = k
         \<and> k \<le> nat (max_steps self)
         \<and> (\<exists>kvs. action_input (steps t ! (k - 1)) = JObject kvs
                \<and> result t = (case map_of kvs ''message'' of
                                Some m \<Rightarrow> m | None \<Rightarrow> JString ''Task completed''))"
proof (cases "for_steps E self cb [1..max_steps self] (initial_state d c w)")
  case (Continue s)
  with assms(1) have f: "finish s = (Inr t, s')" by (simp add: run_def)
  from for_steps_Continue(1)[OF Continue] have
    "\<forall>st \<in> set (steps (task s)). action st \<noteq> JString ''answer_user''"
    by (auto simp: initial_state_fields)
  moreover have "steps t = steps (task s)" using finish_fields(2)[OF f] by auto
  ultimately have "action (steps t ! (k - 1)) \<noteq> JString ''answer_user''"
    using assms(2,3) by simp
  with assms(4) show ?thesis by simp
next
  case (Break s)
  with assms(1) have f: "finish s = (Inr t, s')" by (simp add: run_def)
  from for_steps_Break[OF Break] obtain new st kvs where
    h: "steps (task s) = new @ [st]" "length new < nat (max_steps self)"
       "\<forall>x \<in> set new. action x \<noteq> JString ''answer_user''"
       "action_input st = JObject kvs"
       "result (task s) = dict_get kvs ''message'' (JString ''Task completed'')"
       "state (task s) = COMPLETED"
       "generate_calls s = length new + 1"
    by (auto simp: initial_state_fields)
  from finish_fields[OF f] h(6) have t: "t = task s" and g: "generate_calls s' = generate_calls s"
    by auto
  have "\<not> k - 1 < length new"
  proof
    assume "k - 1 < length new"
    then have "steps t ! (k - 1) \<in> set new" using t h(1) by (simp add: nth_append)
    with h(3) assms(4) show False by simp
  qed
  with assms(2,3) t h(1) have k: "k = Suc (length new)" by simp
  then have "steps t ! (k - 1) = st" using t h(1) by simp
  with k t g h show ?thesis by (simp add: dict_get_def)
next
  case (Raise e s)
  with assms(1) show ?thesis by (simp add: run_def)
qed

text \<open>
  Claim C2, amended, at the scenario of section 8 of the specification: budget 3, the
  terminal action on step 2.
\<close>

theorem run_terminal_action_witness:
  \<open>fst (run example_env (example_agent 3 (Some executor_ok))
          ''find the login button and click it'' () None script_login)
     = Inr \<lparr>description = ''find the login button and click it'', context = (),
            steps = [\<lparr>step_number = 1, thought = JString ''locate button'',
                      action = JString ''click'',
                      action_input = JObject [(''selector'', JString ''#login'')],
                      observation = Some (Dumped ''{"success": true}'')\<rparr>,
                     \<lparr>step_number = 2, thought = JString ''done'',
                      action = JString ''answer_user'',
                      action_input = JObject [(''message'', JString ''Clicked login'')],
                      observation = None\<rparr>],
            state = COMPLETED, result = JString ''Clicked login'', error = None\<rparr>
   \<and> generate_calls (snd (run example_env (example_agent 3 (Some executor_ok))
          ''find the login button and click it'' () None script_login)) = 2\<close>
proof -
  let ?t = \<open>\<lparr>description = ''find the login button and click it'', context = (),
            steps = [\<lparr>step_number = 1, thought = JString ''locate button'',
                      action = JString ''click'',
                      action_input = JObject [(''selector'', JString ''#login'')],
                      observation = Some (Dumped ''{"success": true}'')\<rparr>,
                     \<lparr>step_number = 2, thought = JString ''done'',
                      action = JString ''answer_user'',
                      action_input = JObject [(''message'', JString ''Clicked login'')],
                      observation = None\<rparr>],
            state = COMPLETED, result = JString ''Clicked login'', error = None\<rparr>\<close>
  let ?r = "run example_env (example_agent 3 (Some executor_ok))
          ''find the login button and click it'' () None script_login"
  have f: "fst ?r = Inr ?t" by code_simp
  then have r: "?r = (Inr ?t, snd ?r)" by (simp add: prod_eq_iff)
  have k: "(0::nat) < 2" "2 \<le> length (steps ?t)"
    "action (steps ?t ! (2 - 1)) = JString ''answer_user''" by simp_all
  from run_terminal_action[OF r k]
  have "generate_calls (snd ?r) = 2" by simp
  with f show ?thesis by simp
qed

text \<open>
  Claim C3. For every run that returns a task none of whose steps has the action
  \<^verbatim>\<open>answer_user\<close>: the task is in state \<^verbatim>\<open>error\<close>, its error text is the max-steps
  message, it has exactly \<^verbatim>\<open>max_steps\<close> steps (none for a budget below one), and the
  provider was called as often.
\<close>

theorem run_budget_exhausted:
  assumes "run E self d c cb w = (Inr t, s')"
      and "\<forall>st \<in> set (steps t). action st \<noteq> JString ''answer_user''"
  shows "state t = ERROR \<and> error t = Some max_steps_error
         \<and> length (steps t) = nat (max_steps self) \<and> generate_calls s' = nat (max_steps self)"
proof (cases "for_steps E self cb [1..max_steps self] (initial_state d c w)")
  case (Continue s)
  with assms(1) have f: "finish s = (Inr t, s')" by (simp add: run_def)
  from for_steps_Continue[OF Continue] have
    n: "length (steps (task s)) = nat (max_steps self)"
       "generate_calls s = nat (max_steps self)"
    by (auto simp: initial_state_fields)
  have "state (task s) \<noteq> COMPLETED"
    using for_steps_Continue_state[OF Continue] by (simp add: initial_state_def)
  with finish_fields[OF f] n show ?thesis by auto
next
  case (Break s)
  with assms(1) have f: "finish s = (Inr t, s')" by (simp add: run_def)
  from for_steps_Break[OF Break] obtain new st where
    "steps (task s) = new @ [st]" "action st = JString ''answer_user''"
    by (auto simp: initial_state_fields)
  with finish_fields(2)[OF f] assms(2) show ?thesis by auto
next
  case (Raise e s)
  with assms(1) show ?thesis by (simp add: run_def)
qed

text \<open>
  Claim C3 at a budget of two steps and two replies without JSON.
\<close>

theorem run_budget_exhausted_witness:
  "fst (run example_env (example_agent 2 None) ''t'' () None script_prose)
     = Inr \<lparr>description = ''t'', context = (),
            steps = [\<lparr>step_number = 1, thought = JString ''hello'', action = JNull,
                      action_input = JNull, observation = None\<rparr>,
                     \<lparr>step_number = 2, thought = JString ''{not json}'', action = JNull,
                      action_input = JNull, observation = None\<rparr>],
            state = ERROR, result = JNull, error = Some max_steps_error\<rparr>
   \<and> generate_calls (snd (run example_env (example_agent 2 None) ''t'' () None script_prose)) = 2"
proof -
  let ?t = "\<lparr>description = ''t'', context = (),
            steps = [\<lparr>step_number = 1, thought = JString ''hello'', action = JNull,
                      action_input = JNull, observation = None\<rparr>,
                     \<lparr>step_number = 2, thought = JString ''{not json}'', action = JNull,
                      action_input = JNull, observation = None\<rparr>],
            state = ERROR, result = JNull, error = Some max_steps_error\<rparr>"
  let ?r = "run example_env (example_agent 2 None) ''t'' () None script_prose"
  have f: "fst ?r = Inr ?t" by code_simp
  then have r: "?r = (Inr ?t, snd ?r)" by (simp add: prod_eq_iff)
  have h: "\<forall>st \<in> set (steps ?t). action st \<noteq> JString ''answer_user''" by simp
  from run_budget_exhausted[OF r h]
  have "generate_calls (snd ?r) = nat (max_steps (example_agent 2 None))" by simp
  then have "generate_calls (snd ?r) = 2" by (simp add: example_agent_def)
  with f show ?thesis by simp
qed

text \<open>
  Claim C6 as stated fails: line 182 is \<^verbatim>\<open>except Exception\<close>, and an exception of the
  executor that is not an instance of \<^verbatim>\<open>Exception\<close> passes it. With a budget of two
  steps, the action \<^verbatim>\<open>click\<close> on step 1 and an executor whose await ends in
  \<^verbatim>\<open>asyncio.CancelledError\<close>, the exception leaves \<^verbatim>\<open>run\<close> after one provider call:
  no task is returned, the step has no observation, and the state is \<^verbatim>\<open>acting\<close>, not
  \<^verbatim>\<open>error\<close>.
\<close>

theorem executor_base_exception_counterexample:
  "fst (run example_env (example_agent 2 (Some executor_cancelled)) ''t'' () None script_click)
     = Inl (ExecutorRaised ''CancelledError'')
   \<and> task (snd (run example_env (example_agent 2 (Some executor_cancelled)) ''t'' () None
                    script_click))
     = \<lparr>description = ''t'', context = (),
        steps = [\<lparr>step_number = 1, thought = JString [], action = JString ''click'',
                  action_input = JObject [], observation = None\<rparr>],
        state = ACTING, result = JNull, error = None\<rparr>
   \<and> generate_calls (snd (run example_env (example_agent 2 (Some executor_cancelled)) ''t'' ()
                             None script_click)) = 1"
  by code_simp

text \<open>
  Claim C6, amended. For every pass in which the tool executor is called (the callback
  returned, the action is true and not the terminal one, an executor is set) and raises
  an instance of \<^verbatim>\<open>Exception\<close> with text \<open>e\<close>: the pass ends normally, the observation
  of its step is the error text for that action and \<open>e\<close>, the task is in state
  \<^verbatim>\<open>error\<close>, and the loop goes on with the remaining step numbers from the state the
  pass left.
\<close>

theorem executor_exception_is_caught:
  assumes "get_llm_response E s = (response, s1)"
      and "parse_response (loads E) response n = Inr step"
      and "call_on_step E cb step (append_step step s1) = (None, s2)"
      and "action step \<noteq> JString ''answer_user''"
      and "truthy (action step)"
      and "tool_executor self = Some executor"
      and "executor (world s2) (action step) (or_empty_dict (action_input step))
             = (ToolRaised e, w)"
  shows "\<exists>s'. loop_body E self cb n s = Continue s'
           \<and> steps (task s') = steps (task s) @ [step\<lparr>observation := Some (ExecError (action step) e)\<rparr>]
           \<and> state (task s') = ERROR
           \<and> world s' = w
           \<and> for_steps E self cb (n # rest) s = for_steps E self cb rest s'"
proof -
  have st2: "steps (task s2) = steps (task s) @ [step]"
    using call_on_step_fields(1)[OF assms(3)] get_llm_response_fields(1)[OF assms(1)]
    by (simp add: append_step_def)
  have d: "check_if_done step s2 = None" using assms(4) by (simp add: check_if_done_def)
  obtain x s3 where e: "execute_action E self n step s2 = (x, s3)" by fastforce
  have x: "x = None
           \<and> steps (task s3)
               = steps (task s) @ [step\<lparr>observation := Some (ExecError (action step) e)\<rparr>]
           \<and> state (task s3) = ERROR \<and> world s3 = w"
    using e assms(5,6,7) st2
    by (auto simp: execute_action_def record_observation_def Let_def resume_def cancel_task_def)
  let ?s' = "check_for_errors step s3"
  have b: "loop_body E self cb n s = Continue ?s'"
    using assms(1,2,3) d e x by (simp add: loop_body_def)
  have "steps (task ?s') = steps (task s) @ [step\<lparr>observation := Some (ExecError (action step) e)\<rparr>]
        \<and> state (task ?s') = ERROR \<and> world ?s' = w"
    using x by (simp add: check_for_errors_def)
  with b show ?thesis by simp
qed

text \<open>
  Claim C6, amended, at a budget of two steps, the action \<^verbatim>\<open>click\<close> on step 1 and an
  executor that raises an \<^verbatim>\<open>Exception\<close>.
\<close>

theorem executor_exception_is_caught_witness:
  \<open>\<exists>s'. loop_body example_env (example_agent 2 (Some executor_raising)) None 1
            (initial_state ''t'' () script_click) = Continue s'
      \<and> steps (task s') =
          [\<lparr>step_number = 1, thought = JString [], action = JString ''click'',
            action_input = JObject [],
            observation = Some (ExecError (JString ''click'') ''element not found'')\<rparr>]
      \<and> state (task s') = ERROR
      \<and> for_steps example_env (example_agent 2 (Some executor_raising)) None [1, 2]
            (initial_state ''t'' () script_click)
          = for_steps example_env (example_agent 2 (Some executor_raising)) None [2] s'\<close>
proof -
  let ?s = "initial_state ''t'' () script_click :: (script, unit) run_state"
  let ?s1 = "snd (get_llm_response example_env ?s)"
  let ?step = "\<lparr>step_number = 1, thought = JString [], action = JString ''click'',
            action_input = JObject [], observation = None\<rparr>"
  have \<open>fst (get_llm_response example_env ?s) = ''{"action":"click"}''\<close> by code_simp
  then have h1: \<open>get_llm_response example_env ?s = (''{"action":"click"}'', ?s1)\<close>
    by (simp add: prod_eq_iff)
  have h2: \<open>parse_response (loads example_env) ''{"action":"click"}'' 1 = Inr ?step\<close>
    by code_simp
  have h3: "call_on_step example_env None ?step (append_step ?step ?s1)
              = (None, append_step ?step ?s1)"
    by (simp add: call_on_step_def)
  have h4: "action ?step \<noteq> JString ''answer_user''" and h5: "truthy (action ?step)" by simp_all
  have h6: "tool_executor (example_agent 2 (Some executor_raising)) = Some executor_raising"
    by (simp add: example_agent_def)
  have h7: "executor_raising (world (append_step ?step ?s1)) (action ?step)
              (or_empty_dict (action_input ?step))
            = (ToolRaised ''element not found'', (fst (world (append_step ?step ?s1)), False))"
    by (simp add: executor_raising_def)
  from executor_exception_is_caught[OF h1 h2 h3 h4 h5 h6 h7, of "[2]"]
  obtain s' where b: "loop_body example_env (example_agent 2 (Some executor_raising)) None 1 ?s
                        = Continue s'"
    and st: "steps (task s') = steps (task ?s) @ [?step\<lparr>observation :=
                Some (ExecError (action ?step) ''element not found'')\<rparr>]"
    and e: "state (task s') = ERROR"
    and f: "for_steps example_env (example_agent 2 (Some executor_raising)) None [1, 2] ?s
              = for_steps example_env (example_agent 2 (Some executor_raising)) None [2] s'"
    by blast
  from st have "steps (task s') =
          [\<lparr>step_number = 1, thought = JString [], action = JString ''click'',
            action_input = JObject [],
            observation = Some (ExecError (JString ''click'') ''element not found'')\<rparr>]"
    by (simp add: initial_state_def)
  with b e f show ?thesis by blast
qed

text \<open>
  Claim C7 as stated fails: nothing catches an exception of \<^verbatim>\<open>await on_step(step)\<close>.
  With a budget of two steps and a callback that raises, \<^verbatim>\<open>run\<close> ends in that
  exception after one provider call and returns no task.
\<close>

theorem callback_exception_counterexample:
  "fst (run example_env (example_agent 2 None) ''t'' () (Some callback_raising) script_prose)
     = Inl (CallbackRaised ''connection closed'')
   \<and> generate_calls (snd (run example_env (example_agent 2 None) ''t'' ()
                             (Some callback_raising) script_prose)) = 1"
  by code_simp

text \<open>
  Claim C7, amended. If the steps before step \<open>n\<close> passed, and on step \<open>n\<close> the
  callback raises an exception with text \<open>e\<close>, then \<^verbatim>\<open>run\<close> ends in that exception:
  no task is returned, and no step and no provider call follows step \<open>n\<close>.
\<close>

theorem callback_exception_leaves_run:
  assumes "[1..max_steps self] = before @ n # rest"
      and "for_steps E self cb before (initial_state d c w) = Continue s"
      and "get_llm_response E s = (response, s1)"
      and "parse_response (loads E) response n = Inr step"
      and "call_on_step E cb step (append_step step s1) = (Some e, s2)"
  shows "run E self d c cb w = (Inl (CallbackRaised e), s2)
         \<and> generate_calls s2 = Suc (length before)
         \<and> length (steps (task s2)) = Suc (length before)"
proof -
  have b: "loop_body E self cb n s = Raise (CallbackRaised e) s2"
    using assms(3,4,5) by (simp add: loop_body_def)
  have "for_steps E self cb (before @ n # rest) (initial_state d c w) = Raise (CallbackRaised e) s2"
    using assms(2) b by (simp add: for_steps_append)
  then have r: "run E self d c cb w = (Inl (CallbackRaised e), s2)"
    using assms(1) by (simp add: run_def)
  have g: "generate_calls s2 = Suc (length before)"
    using loop_body_Raise[OF b] for_steps_Continue(2)[OF assms(2)]
    by (simp add: initial_state_fields)
  have "length (steps (task s)) = length before"
    using for_steps_Continue(1)[OF assms(2)] by (auto simp: initial_state_fields)
  then have "length (steps (task s2)) = Suc (length before)"
    using call_on_step_fields(1)[OF assms(5)] get_llm_response_fields(1)[OF assms(3)]
    by (simp add: append_step_def)
  with r g show ?thesis by simp
qed

text \<open>
  Claim C7, amended, at a budget of two steps and a callback that raises on step 1.
\<close>

theorem callback_exception_leaves_run_witness:
  "fst (run example_env (example_agent 2 None) ''t'' () (Some callback_raising) script_prose)
     = Inl (CallbackRaised ''connection closed'')
   \<and> generate_calls (snd (run example_env (example_agent 2 None) ''t'' ()
                             (Some callback_raising) script_prose)) = Suc 0
   \<and> length (steps (task (snd (run example_env (example_agent 2 None) ''t'' ()
                             (Some callback_raising) script_prose)))) = Suc 0"
proof -
  let ?s = "initial_state ''t'' () script_prose :: (script, unit) run_state"
  let ?s1 = "snd (get_llm_response example_env ?s)"
  let ?step = "\<lparr>step_number = 1, thought = JString ''hello'', action = JNull,
            action_input = JNull, observation = None\<rparr>"
  let ?s2 = "snd (call_on_step example_env (Some callback_raising) ?step (append_step ?step ?s1))"
  have h1: "[1..max_steps (example_agent 2 None :: (script, unit) agent)] = [] @ 1 # [2]"
    by code_simp
  have h2: "for_steps example_env (example_agent 2 None) (Some callback_raising) [] ?s = Continue ?s"
    by simp
  have "fst (get_llm_response example_env ?s) = ''hello''" by code_simp
  then have h3: "get_llm_response example_env ?s = (''hello'', ?s1)" by (simp add: prod_eq_iff)
  have h4: "parse_response (loads example_env) ''hello'' 1 = Inr ?step" by code_simp
  have "fst (call_on_step example_env (Some callback_raising) ?step (append_step ?step ?s1))
          = Some ''connection closed''"
    by (simp add: call_on_step_def callback_raising_def split: prod.splits)
  then have h5: "call_on_step example_env (Some callback_raising) ?step (append_step ?step ?s1)
          = (Some ''connection closed'', ?s2)" by (simp add: prod_eq_iff)
  from callback_exception_leaves_run[OF h1 h2 h3 h4 h5]
  show ?thesis by simp
qed

text \<open>
  Claim C8 says that the loop observes a \<^verbatim>\<open>stop\<close> and that the returned task carries
  the cancellation reason. With a budget of two steps, two replies without JSON and a
  \<^verbatim>\<open>stop\<close> while the first reply is awaited: \<^verbatim>\<open>stop\<close> does set the state
  \<^verbatim>\<open>error\<close> and the cancellation text, and so the task stands when the await returns;
  but the loop never looks at it, calls the provider a second time, and line 195 replaces
  the text, so the task returned carries the max-steps message.
\<close>

theorem stop_is_overwritten:
  "current_task (stop ((example_agent 2 None)
       \<lparr>current_task := Some (task (initial_state ''t'' () script_stopped))\<rparr>))
     = Some \<lparr>description = ''t'', context = (), steps = [], state = ERROR, result = JNull,
             error = Some ''Task cancelled by user''\<rparr>
   \<and> task (snd (get_llm_response example_env (initial_state ''t'' () script_stopped)))
     = \<lparr>description = ''t'', context = (), steps = [], state = ERROR, result = JNull,
        error = Some ''Task cancelled by user''\<rparr>
   \<and> fst (run example_env (example_agent 2 None) ''t'' () None script_stopped)
     = Inr \<lparr>description = ''t'', context = (),
            steps = [\<lparr>step_number = 1, thought = JString ''hello'', action = JNull,
                      action_input = JNull, observation = None\<rparr>,
                     \<lparr>step_number = 2, thought = JString ''hello'', action = JNull,
                      action_input = JNull, observation = None\<rparr>],
            state = ERROR, result = JNull,
            error = Some ''Max steps reached without completing task''\<rparr>
   \<and> generate_calls (snd (run example_env (example_agent 2 None) ''t'' () None script_stopped)) = 2"
  by code_simp




text \<open>
  Claim C10. Whenever \<^verbatim>\<open>run\<close> returns a task in state \<^verbatim>\<open>error\<close>, its error text is
  the max-steps message, whatever executors, callbacks and calls of \<^verbatim>\<open>stop\<close> the run
  met; and whatever state a pass starts in, the task is in state \<^verbatim>\<open>thinking\<close> when its
  provider call returns, unless a \<^verbatim>\<open>stop\<close> ran during that call.
\<close>

theorem returned_error_text:
  "(run E self d c cb w = (Inr t, s') \<and> state t = ERROR \<longrightarrow> error t = Some max_steps_error)
   \<and> (get_llm_response E s = (response, s1) \<and> \<not> stop_called E (world s1)
        \<longrightarrow> state (task s1) = THINKING)"
proof (intro conjI impI)
  assume "run E self d c cb w = (Inr t, s') \<and> state t = ERROR"
  then show "error t = Some max_steps_error"
    by (auto simp: run_def finish_def Let_def split: flow.splits if_splits)
next
  assume "get_llm_response E s = (response, s1) \<and> \<not> stop_called E (world s1)"
  then show "state (task s1) = THINKING"
    by (auto simp: get_llm_response_def resume_def Let_def split: prod.splits if_splits)
qed

text \<open>
  Claim C10 at a run whose executor raised on step 1, and at a pass that starts from a
  cancelled task.
\<close>

theorem returned_error_text_witness:
  "fst (run example_env (example_agent 2 (Some executor_raising)) ''t'' () None script_click)
     = Inr \<lparr>description = ''t'', context = (),
            steps = [\<lparr>step_number = 1, thought = JString [], action = JString ''click'',
                      action_input = JObject [],
                      observation = Some (ExecError (JString ''click'') ''element not found'')\<rparr>,
                     \<lparr>step_number = 2, thought = JString ''hello'', action = JNull,
                      action_input = JNull, observation = None\<rparr>],
            state = ERROR, result = JNull, error = Some max_steps_error\<rparr>
   \<and> state (task (snd (get_llm_response example_env
         ((initial_state ''t'' () script_prose)
            \<lparr>task := cancel_task (task (initial_state ''t'' () script_prose))\<rparr>)))) = THINKING"
proof -
  let ?t = "\<lparr>description = ''t'', context = (),
            steps = [\<lparr>step_number = 1, thought = JString [], action = JString ''click'',
                      action_input = JObject [],
                      observation = Some (ExecError (JString ''click'') ''element not found'')\<rparr>,
                     \<lparr>step_number = 2, thought = JString ''hello'', action = JNull,
                      action_input = JNull, observation = None\<rparr>],
            state = ERROR, result = JNull, error = Some ''Max steps reached without completing task''\<rparr>"
  let ?r = "run example_env (example_agent 2 (Some executor_raising)) ''t'' () None script_click"
  let ?s = "(initial_state ''t'' () script_prose)
            \<lparr>task := cancel_task (task (initial_state ''t'' () script_prose))\<rparr>"
  have f: "fst ?r = Inr ?t" by code_simp
  then have r: "?r = (Inr ?t, snd ?r) \<and> state ?t = ERROR" by (simp add: prod_eq_iff)
  have g: "get_llm_response example_env ?s
             = (fst (get_llm_response example_env ?s), snd (get_llm_response example_env ?s))
           \<and> \<not> stop_called example_env (world (snd (get_llm_response example_env ?s)))"
    by (simp add: get_llm_response_def example_env_def scripted_generate_def script_prose_def
          initial_state_def Let_def)
  from returned_error_text[THEN conjunct1, THEN mp, OF r]
  have "error ?t = Some max_steps_error" .
  with f have 1: "fst ?r = Inr (?t\<lparr>error := Some max_steps_error\<rparr>)" by simp
  from returned_error_text[THEN conjunct2, THEN mp, OF g]
  have 2: "state (task (snd (get_llm_response example_env ?s))) = THINKING" .
  from 1 2 show ?thesis by simp
qed

section \<open>The claim about \<^verbatim>\<open>switch_mode\<close>\<close>

text \<open>
  Claim C5. For every target, probe and manager: \<^verbatim>\<open>switch_mode\<close> returns \<^verbatim>\<open>True\<close>
  only for \<^verbatim>\<open>online\<close> or \<^verbatim>\<open>offline\<close> and only when the \<^verbatim>\<open>initialize\<close> of that
  adapter returned \<^verbatim>\<open>True\<close>, and then mode, active adapter and model identifier are
  those of the target; when it returns \<^verbatim>\<open>False\<close> (the \<^verbatim>\<open>initialize\<close> failed, or the
  target is neither word), mode, active adapter and model identifier are what they were.
\<close>

theorem switch_mode_all_or_nothing:
  assumes "switch_mode P target self = (ok, self')"
  shows "(ok \<longrightarrow>
            (target = ''online'' \<and> gemini_initialize P (gemini self) = (True, gemini self')
               \<and> mode self' = ''online'' \<and> active_engine self' = Gemini
               \<and> model self' = Some (model_name (gemini self')))
          \<or> (target = ''offline'' \<and> ollama_initialize P (ollama self) = (True, ollama self')
               \<and> mode self' = ''offline'' \<and> active_engine self' = Ollama
               \<and> model self' = Some (ollama_model (ollama self'))))
       \<and> (\<not> ok \<longrightarrow>
            mode self' = mode self \<and> active_engine self' = active_engine self
            \<and> model self' = model self
            \<and> (target = ''online'' \<longrightarrow> \<not> fst (gemini_initialize P (gemini self)))
            \<and> (target = ''offline'' \<longrightarrow> \<not> fst (ollama_initialize P (ollama self))))"
  using assms
  by (auto simp: switch_mode_def Let_def split: if_splits prod.splits)

text \<open>
  Claim C5 at a successful and at a failed switch to \<^verbatim>\<open>online\<close>.
\<close>

theorem switch_mode_all_or_nothing_witness:
  "switch_mode probe_key ''online'' example_engine
     = (True, example_engine\<lparr>gemini := \<lparr>model_name = ''gemini-2.0-flash-exp'', api_key = Some ''secret'',
                gemini_available = True, gemini_client = True\<rparr>, mode := ''online'', active_engine := Gemini,
                model := Some ''gemini-2.0-flash-exp''\<rparr>)
   \<and> fst (switch_mode probe_no_key ''online'' example_engine) = False
   \<and> mode (snd (switch_mode probe_no_key ''online'' example_engine)) = ''offline''
   \<and> active_engine (snd (switch_mode probe_no_key ''online'' example_engine)) = Ollama
   \<and> model (snd (switch_mode probe_no_key ''online'' example_engine)) = Some ''llama3.2:3b''"
proof -
  let ?on = "example_engine\<lparr>gemini := \<lparr>model_name = ''gemini-2.0-flash-exp'', api_key = Some ''secret'',
                gemini_available = True, gemini_client = True\<rparr>, mode := ''online'', active_engine := Gemini,
                model := Some ''gemini-2.0-flash-exp''\<rparr>"
  let ?off = "snd (switch_mode probe_no_key ''online'' example_engine)"
  have a: "switch_mode probe_key ''online'' example_engine = (True, ?on)"
    by (simp add: switch_mode_def gemini_initialize_def probe_key_def probe_no_key_def
          example_engine_def Let_def)
  have f: "fst (switch_mode probe_no_key ''online'' example_engine) = False"
    by (simp add: switch_mode_def gemini_initialize_def probe_no_key_def
          example_engine_def Let_def)
  then have b: "switch_mode probe_no_key ''online'' example_engine = (False, ?off)"
    by (simp add: prod_eq_iff)
  from switch_mode_all_or_nothing[OF a]
  have 1: "mode ?on = ''online'' \<and> active_engine ?on = Gemini" by simp
  from switch_mode_all_or_nothing[OF b]
  have 2: "mode ?off = mode example_engine \<and> active_engine ?off = active_engine example_engine
           \<and> model ?off = model example_engine" by simp
  have 3: "mode example_engine = ''offline'' \<and> active_engine example_engine = Ollama
           \<and> model example_engine = Some ''llama3.2:3b''"
    by (simp add: example_engine_def)
  from a f 2 3 show ?thesis by simp
qed

end
